theory Spec2Isabelle
  imports Main "HOL-Library.Sublist"
begin

section \<open>The intermediate representation as the pass sees it\<close>

text \<open>
  The analysis of \<^verbatim>\<open>MpiDepAnalysis.cpp\<close> never builds IR; it only walks an LLVM module
  through the accessors of the host library. Objects are identified by their address, so
  functions, basic blocks and instructions are numbered, and a module is the record of
  the accessors the pass calls. A \<^verbatim>\<open>Value*\<close> met in an operand list or in a use list is
  an instruction, a basic block (a branch target), a function (a callee) or some other
  constant; \<^verbatim>\<open>dyn_cast<Instruction>\<close> is the case distinction on this type.
\<close>

type_synonym FunctionPtr = nat
type_synonym BasicBlockPtr = nat
type_synonym InstructionPtr = nat

datatype Value =
    Instruction InstructionPtr
  | BasicBlock BasicBlockPtr
  | Function FunctionPtr
  | Constant int

datatype Opcode = Alloca | Load | Store | ICmp | Add | PHI | Br | Call | Ret

record Module =
  getFunctionList :: "FunctionPtr list"
  getName :: "FunctionPtr \<Rightarrow> string"
  function_uses :: "FunctionPtr \<Rightarrow> Value list"
  getParent :: "InstructionPtr \<Rightarrow> BasicBlockPtr"
  predecessors :: "BasicBlockPtr \<Rightarrow> BasicBlockPtr list"
  getTerminator :: "BasicBlockPtr \<Rightarrow> InstructionPtr"
  operands :: "InstructionPtr \<Rightarrow> Value list"
  uses :: "InstructionPtr \<Rightarrow> Value list"
  getOpcode :: "InstructionPtr \<Rightarrow> Opcode"

text \<open>
  \<^item> \<open>getFunctionList\<close> is the iteration \<^verbatim>\<open>M.begin() .. M.end()\<close>;
  \<^item> \<open>function_uses F\<close> is \<^verbatim>\<open>F->use_begin() .. F->use_end()\<close>, the users of a function;
  \<^item> \<open>predecessors BB\<close> is \<^verbatim>\<open>pred_begin(BB) .. pred_end(BB)\<close> (a block occurs once
    for each of its edges into \<open>BB\<close>);
  \<^item> \<open>operands I\<close> is \<^verbatim>\<open>I->op_begin() .. I->op_end()\<close> and \<open>uses I\<close> is
    \<^verbatim>\<open>I->use_begin() .. I->use_end()\<close>;
  \<^item> \<^verbatim>\<open>dyn_cast<AllocaInst>(V)\<close> succeeds exactly when \<open>getOpcode V = Alloca\<close>.

  The IR is taken as the verifier leaves it: every block has a terminator, so
  \<open>getTerminator\<close> is total.
\<close>

fun dyn_cast_Instruction :: "Value \<Rightarrow> InstructionPtr option" where
  "dyn_cast_Instruction (Instruction I) = Some I"
| "dyn_cast_Instruction _ = None"

section \<open>The state of the pass\<close>

text \<open>
  \<^verbatim>\<open>SmallPtrSet::insert\<close> returns whether the pointer was new. The set is kept as the
  list of its elements in the order of their insertion, which is the order in which a
  set is iterated as long as it fits its inline capacity (256 blocks, 512 instructions).
  The statements about \<open>BasicDeps\<close> and \<open>Deps\<close> read these lists as sets.
\<close>

definition SmallPtrSet_insert :: "nat \<Rightarrow> nat list \<Rightarrow> nat list \<times> bool" where
  "SmallPtrSet_insert p S = (if p \<in> set S then (S, False) else (S @ [p], True))"

text \<open>
  The four \<^verbatim>\<open>STATISTIC\<close> counters of the file belong to the process, not to an instance
  of the pass: no constructor and no method resets them. The host keeps such a counter in
  32 bits; here it is a natural number, which is the same as long as it stays below
  \<open>2 ^ 32\<close>.
\<close>

record Statistics =
  SendCounter :: nat
  RecvCounter :: nat
  SendBasicBlockCounter :: nat
  RecvBasicBlockCounter :: nat

text \<open>The counters as the process starts.\<close>

definition process_start :: Statistics where
  "process_start =
     \<lparr> SendCounter = 0, RecvCounter = 0,
       SendBasicBlockCounter = 0, RecvBasicBlockCounter = 0 \<rparr>"

text \<open>
  What the methods of the pass read and write: the counters, and the members of the
  class \<^verbatim>\<open>MpiDepAnalysis\<close>. The vector \<open>Worklist\<close> is a list whose last element is
  \<^verbatim>\<open>back()\<close>.
\<close>

record MpiDepAnalysis = Statistics +
  SendName :: string
  RecvName :: string
  BasicDeps :: "BasicBlockPtr list"
  Deps :: "InstructionPtr list"
  Worklist :: "InstructionPtr list"

text \<open>
  The two constructors, called in a process whose counters stand at \<open>St\<close>: they set the
  names, make the sets and the worklist empty, and leave the counters as they are.
\<close>

definition MpiDepAnalysis_named :: "string \<Rightarrow> string \<Rightarrow> Statistics \<Rightarrow> MpiDepAnalysis" where
  "MpiDepAnalysis_named sn rn St =
     \<lparr> SendCounter = SendCounter St, RecvCounter = RecvCounter St,
       SendBasicBlockCounter = SendBasicBlockCounter St,
       RecvBasicBlockCounter = RecvBasicBlockCounter St,
       SendName = sn, RecvName = rn, BasicDeps = [], Deps = [], Worklist = [] \<rparr>"

definition MpiDepAnalysis_default :: "Statistics \<Rightarrow> MpiDepAnalysis" where
  "MpiDepAnalysis_default St = MpiDepAnalysis_named ''MPI_Send'' ''MPI_Recv'' St"

section \<open>initSendRecv\<close>

text \<open>
  The assertions of the source are part of the model, as in a build that keeps them
  (without \<^verbatim>\<open>NDEBUG\<close>): each of the four is a failure of its own. \<open>SinkAmbiguous s\<close> is \<^verbatim>\<open>assert(Send == nullptr)\<close> (or \<open>Recv\<close>) inside the scan,
  \<open>SinkMissing s\<close> is \<^verbatim>\<open>assert(Send != nullptr)\<close> (or \<open>Recv\<close>) after it.
\<close>

datatype Sink = SendSink | RecvSink

datatype error = SinkMissing Sink | SinkAmbiguous Sink

fun initSendRecv_loop ::
  "string \<Rightarrow> string \<Rightarrow> Module \<Rightarrow> FunctionPtr list \<Rightarrow> FunctionPtr option \<Rightarrow> FunctionPtr option
     \<Rightarrow> error + (FunctionPtr option \<times> FunctionPtr option)" where
  "initSendRecv_loop sn rn M [] Send Recv = Inr (Send, Recv)"
| "initSendRecv_loop sn rn M (F # Fs) Send Recv =
     (if sn = getName M F then
        (if Send \<noteq> None then Inl (SinkAmbiguous SendSink)
         else initSendRecv_loop sn rn M Fs (Some F) Recv)
      else if rn = getName M F then
        (if Recv \<noteq> None then Inl (SinkAmbiguous RecvSink)
         else initSendRecv_loop sn rn M Fs Send (Some F))
      else initSendRecv_loop sn rn M Fs Send Recv)"

definition initSendRecv :: "MpiDepAnalysis \<Rightarrow> Module \<Rightarrow> error + (FunctionPtr \<times> FunctionPtr)" where
  "initSendRecv P M =
     (case initSendRecv_loop (SendName P) (RecvName P) M (getFunctionList M) None None of
        Inl e \<Rightarrow> Inl e
      | Inr (Send, Recv) \<Rightarrow>
          (case Send of
             None \<Rightarrow> Inl (SinkMissing SendSink)
           | Some S \<Rightarrow>
               (case Recv of
                  None \<Rightarrow> Inl (SinkMissing RecvSink)
                | Some R \<Rightarrow> Inr (S, R))))"

section \<open>initBasicDeps\<close>

definition initBasicDeps_send :: "Module \<Rightarrow> MpiDepAnalysis \<Rightarrow> Value \<Rightarrow> MpiDepAnalysis" where
  "initBasicDeps_send M P u =
     (case dyn_cast_Instruction u of
        None \<Rightarrow> P
      | Some Inst \<Rightarrow>
          (let (S, fresh) = SmallPtrSet_insert (getParent M Inst) (BasicDeps P);
               P1 = P\<lparr>BasicDeps := S\<rparr>;
               P2 = (if fresh
                     then P1\<lparr>SendBasicBlockCounter := SendBasicBlockCounter P1 + 1\<rparr>
                     else P1)
           in P2\<lparr>SendCounter := SendCounter P2 + 1\<rparr>))"

definition initBasicDeps_recv :: "Module \<Rightarrow> MpiDepAnalysis \<Rightarrow> Value \<Rightarrow> MpiDepAnalysis" where
  "initBasicDeps_recv M P u =
     (case dyn_cast_Instruction u of
        None \<Rightarrow> P
      | Some Inst \<Rightarrow>
          (let (S, fresh) = SmallPtrSet_insert (getParent M Inst) (BasicDeps P);
               P1 = P\<lparr>BasicDeps := S\<rparr>;
               P2 = (if fresh
                     then P1\<lparr>RecvBasicBlockCounter := RecvBasicBlockCounter P1 + 1\<rparr>
                     else P1)
           in P2\<lparr>RecvCounter := RecvCounter P2 + 1\<rparr>))"

definition initBasicDeps ::
  "Module \<Rightarrow> FunctionPtr \<Rightarrow> FunctionPtr \<Rightarrow> MpiDepAnalysis \<Rightarrow> MpiDepAnalysis" where
  "initBasicDeps M Send Recv P =
     foldl (initBasicDeps_recv M)
       (foldl (initBasicDeps_send M) P (function_uses M Send))
       (function_uses M Recv)"

section \<open>initWorklist\<close>

text \<open>
  The innermost loop of \<^verbatim>\<open>initWorklist\<close> and both loops of \<^verbatim>\<open>reachFixpoint\<close> have
  the same shape: walk a list of values and \<^verbatim>\<open>push_back\<close> those that are instructions.
\<close>

definition push_back_Instructions :: "InstructionPtr list \<Rightarrow> Value list \<Rightarrow> InstructionPtr list" where
  "push_back_Instructions W vs =
     foldl (\<lambda>W v. case dyn_cast_Instruction v of None \<Rightarrow> W | Some U \<Rightarrow> W @ [U]) W vs"

definition initWorklist :: "Module \<Rightarrow> MpiDepAnalysis \<Rightarrow> MpiDepAnalysis" where
  "initWorklist M P =
     P\<lparr>Worklist :=
         foldl (\<lambda>W BB.
                  foldl (\<lambda>W Pred. push_back_Instructions W (operands M (getTerminator M Pred)))
                    W (predecessors M BB))
           (Worklist P) (BasicDeps P)\<rparr>"

section \<open>reachFixpoint\<close>

text \<open>One turn of the \<^verbatim>\<open>while\<close> loop, for a worklist that is not empty.\<close>

definition reachFixpoint_body :: "Module \<Rightarrow> MpiDepAnalysis \<Rightarrow> MpiDepAnalysis" where
  "reachFixpoint_body M P =
     (let V = last (Worklist P);
          P1 = P\<lparr>Worklist := butlast (Worklist P)\<rparr>;
          P2 = P1\<lparr>Worklist := push_back_Instructions (Worklist P1) (operands M V)\<rparr>;
          (S, fresh) = SmallPtrSet_insert V (Deps P2);
          P3 = P2\<lparr>Deps := S\<rparr>
      in if fresh \<and> getOpcode M V = Alloca
         then P3\<lparr>Worklist := push_back_Instructions (Worklist P3) (uses M V)\<rparr>
         else P3)"

text \<open>The loop may run forever; then its value is \<open>None\<close>.\<close>

partial_function (option) reachFixpoint :: "Module \<Rightarrow> MpiDepAnalysis \<Rightarrow> MpiDepAnalysis option" where
  "reachFixpoint M P =
     (if Worklist P = [] then Some P else reachFixpoint M (reachFixpoint_body M P))"

declare reachFixpoint.simps [code]

section \<open>printAllocaDeps and runOnModule\<close>

text \<open>The lines that \<^verbatim>\<open>printAllocaDeps\<close> writes: the members of \<open>Deps\<close> that are allocas.\<close>

definition printAllocaDeps :: "Module \<Rightarrow> MpiDepAnalysis \<Rightarrow> InstructionPtr list" where
  "printAllocaDeps M P = filter (\<lambda>i. getOpcode M i = Alloca) (Deps P)"

text \<open>
  The result is \<open>None\<close> when the pass does not return, \<open>Some (Inl e)\<close> when an assertion
  of \<open>initSendRecv\<close> stops it, and \<open>Some (Inr P')\<close> with the state it leaves otherwise.
\<close>

definition runOnModule :: "MpiDepAnalysis \<Rightarrow> Module \<Rightarrow> (error + MpiDepAnalysis) option" where
  "runOnModule P M =
     (case initSendRecv P M of
        Inl e \<Rightarrow> Some (Inl e)
      | Inr (Send, Recv) \<Rightarrow>
          map_option Inr (reachFixpoint M (initWorklist M (initBasicDeps M Send Recv P))))"

section \<open>Vocabulary of the statements\<close>

text \<open>
  The users of a value that are instructions, in the order of the use list. For a
  function these are its call sites.
\<close>

definition Instruction_users :: "Value list \<Rightarrow> InstructionPtr list" where
  "Instruction_users vs = List.map_filter dyn_cast_Instruction vs"

text \<open>The blocks that hold a call site of \<open>F\<close>.\<close>

definition call_blocks :: "Module \<Rightarrow> FunctionPtr \<Rightarrow> BasicBlockPtr set" where
  "call_blocks M F = getParent M ` set (Instruction_users (function_uses M F))"

text \<open>How many functions of the module carry the name \<open>n\<close>.\<close>

definition count_named :: "Module \<Rightarrow> string \<Rightarrow> nat" where
  "count_named M n = length (filter (\<lambda>F. getName M F = n) (getFunctionList M))"

text \<open>
  What \<^verbatim>\<open>initWorklist\<close> pushes for a list of sink blocks: for each block, for each of
  its predecessors, the instructions among the operands of the predecessor's terminator.
\<close>

definition seeds_of :: "Module \<Rightarrow> BasicBlockPtr list \<Rightarrow> InstructionPtr list" where
  "seeds_of M Bs =
     concat (map (\<lambda>BB. concat (map (\<lambda>Pred. Instruction_users (operands M (getTerminator M Pred)))
                                 (predecessors M BB))) Bs)"

text \<open>
  What holds between the turns of the loop of \<open>reachFixpoint\<close>: whatever the two closure
  rules ask for a member of \<open>Deps\<close> is in \<open>Deps\<close> already or waits on the worklist.
\<close>

definition closure_inv :: "Module \<Rightarrow> MpiDepAnalysis \<Rightarrow> bool" where
  "closure_inv M P \<longleftrightarrow>
     (\<forall>i \<in> set (Deps P). \<forall>U. Instruction U \<in> set (operands M i)
          \<longrightarrow> U \<in> set (Deps P) \<union> set (Worklist P))
   \<and> (\<forall>a \<in> set (Deps P). getOpcode M a = Alloca
          \<longrightarrow> (\<forall>U. Instruction U \<in> set (uses M a) \<longrightarrow> U \<in> set (Deps P) \<union> set (Worklist P)))"

text \<open>
  An instruction \<open>i\<close> is justified, with respect to the seeds \<open>S\<close> and the members \<open>D\<close>,
  when it is a seed, an operand of another member, or a user of an alloca member.
\<close>

definition justified ::
  "Module \<Rightarrow> InstructionPtr set \<Rightarrow> InstructionPtr set \<Rightarrow> InstructionPtr \<Rightarrow> bool" where
  "justified M S D i \<longleftrightarrow>
     i \<in> S
   \<or> (\<exists>d \<in> D. d \<noteq> i \<and> Instruction i \<in> set (operands M d))
   \<or> (\<exists>a \<in> D. getOpcode M a = Alloca \<and> Instruction i \<in> set (uses M a))"

section \<open>Concrete modules\<close>

text \<open>A module of declarations only: function \<open>F\<close> carries the \<open>F\<close>-th name of the list.\<close>

definition decls_module :: "string list \<Rightarrow> Module" where
  "decls_module ns =
     \<lparr> getFunctionList = [0 ..< length ns],
       getName = (\<lambda>F. if F < length ns then ns ! F else ''''),
       function_uses = (\<lambda>_. []),
       getParent = (\<lambda>_. 0),
       predecessors = (\<lambda>_. []),
       getTerminator = (\<lambda>_. 0),
       operands = (\<lambda>_. []),
       uses = (\<lambda>_. []),
       getOpcode = (\<lambda>_. Ret) \<rparr>"


text \<open>
  Scenario S1. Functions: 0 is \<^verbatim>\<open>main\<close>, 1 is \<^verbatim>\<open>MPI_Send\<close>, 2 is \<^verbatim>\<open>MPI_Recv\<close> (declared,
  never called). Blocks: 0 is \<^verbatim>\<open>entry\<close>, 1 is \<^verbatim>\<open>then\<close>, 2 is \<^verbatim>\<open>else\<close>. Instructions:
  \<^item> 0: \<^verbatim>\<open>%a = alloca i32\<close>
  \<^item> 1: \<^verbatim>\<open>store i32 0, %a\<close>
  \<^item> 2: \<^verbatim>\<open>%v = load %a\<close>
  \<^item> 3: \<^verbatim>\<open>%c = icmp eq %v, 0\<close>
  \<^item> 4: \<^verbatim>\<open>br %c, label %then, label %else\<close>
  \<^item> 5: \<^verbatim>\<open>call @MPI_Send()\<close> and 6: \<^verbatim>\<open>br label %else\<close>, in \<^verbatim>\<open>then\<close>
  \<^item> 7: \<^verbatim>\<open>ret\<close>, in \<^verbatim>\<open>else\<close>
\<close>

definition S1_module :: Module where
  "S1_module =
     \<lparr> getFunctionList = [0, 1, 2],
       getName = (\<lambda>_. '''')(0 := ''main'', 1 := ''MPI_Send'', 2 := ''MPI_Recv''),
       function_uses = (\<lambda>_. [])(1 := [Instruction 5]),
       getParent = (\<lambda>_. 0)(5 := 1, 6 := 1, 7 := 2),
       predecessors = (\<lambda>_. [])(1 := [0], 2 := [1, 0]),
       getTerminator = (\<lambda>_. 4)(1 := 6, 2 := 7),
       operands = (\<lambda>_. [])(0 := [Constant 1], 1 := [Constant 0, Instruction 0],
                      2 := [Instruction 0], 3 := [Instruction 2, Constant 0],
                      4 := [Instruction 3, BasicBlock 2, BasicBlock 1],
                      5 := [Function 1], 6 := [BasicBlock 2]),
       uses = (\<lambda>_. [])(0 := [Instruction 2, Instruction 1], 2 := [Instruction 3],
                  3 := [Instruction 4]),
       getOpcode = (\<lambda>_. Ret)(0 := Alloca, 1 := Store, 2 := Load, 3 := ICmp, 4 := Br,
                       5 := Call, 6 := Br) \<rparr>"

text \<open>
  The state in which the pass leaves a new instance after one run on S1, in a process
  that has just started.
\<close>

definition S1_result :: MpiDepAnalysis where
  "S1_result =
     \<lparr> SendCounter = 1, RecvCounter = 0,
       SendBasicBlockCounter = 1, RecvBasicBlockCounter = 0,
       SendName = ''MPI_Send'', RecvName = ''MPI_Recv'', BasicDeps = [1],
       Deps = [3, 2, 0, 1], Worklist = [] \<rparr>"

text \<open>Scenario S2: S1 with 8: \<^verbatim>\<open>call @MPI_Recv()\<close> added to \<^verbatim>\<open>then\<close>.\<close>

definition S2_module :: Module where
  "S2_module =
     S1_module\<lparr> function_uses := (function_uses S1_module)(2 := [Instruction 8]),
                getParent := (getParent S1_module)(8 := 1),
                operands := (operands S1_module)(8 := [Function 2]),
                getOpcode := (getOpcode S1_module)(8 := Call) \<rparr>"

text \<open>
  A loop that sends. Blocks: 0 is \<^verbatim>\<open>entry\<close>, 1 is \<^verbatim>\<open>loop\<close>, 2 is \<^verbatim>\<open>exit\<close>. Instructions:
  \<^item> 0: \<^verbatim>\<open>br label %loop\<close>, in \<^verbatim>\<open>entry\<close>
  \<^item> 1: \<^verbatim>\<open>%i = phi [0, %entry], [%n, %loop]\<close>
  \<^item> 2: \<^verbatim>\<open>%n = add %i, 1\<close>
  \<^item> 3: \<^verbatim>\<open>call @MPI_Send()\<close>
  \<^item> 4: \<^verbatim>\<open>%c = icmp slt %n, 10\<close>
  \<^item> 5: \<^verbatim>\<open>br %c, label %loop, label %exit\<close>
  \<^item> 6: \<^verbatim>\<open>ret\<close>, in \<^verbatim>\<open>exit\<close>
\<close>

definition loop_module :: Module where
  "loop_module =
     \<lparr> getFunctionList = [0, 1, 2],
       getName = (\<lambda>_. '''')(0 := ''main'', 1 := ''MPI_Send'', 2 := ''MPI_Recv''),
       function_uses = (\<lambda>_. [])(1 := [Instruction 3]),
       getParent = (\<lambda>_. 1)(0 := 0, 6 := 2),
       predecessors = (\<lambda>_. [])(1 := [0, 1], 2 := [1]),
       getTerminator = (\<lambda>_. 0)(1 := 5, 2 := 6),
       operands = (\<lambda>_. [])(0 := [BasicBlock 1], 1 := [Constant 0, Instruction 2],
                      2 := [Instruction 1, Constant 1], 3 := [Function 1],
                      4 := [Instruction 2, Constant 10],
                      5 := [Instruction 4, BasicBlock 2, BasicBlock 1]),
       uses = (\<lambda>_. [])(1 := [Instruction 2], 2 := [Instruction 4, Instruction 1],
                  4 := [Instruction 5]),
       getOpcode = (\<lambda>_. Ret)(0 := Br, 1 := PHI, 2 := Add, 3 := Call, 4 := ICmp, 5 := Br) \<rparr>"

text \<open>
  The state in which the pass leaves a new instance after one run on S2, in a process
  that has just started.
\<close>

definition S2_result :: MpiDepAnalysis where
  "S2_result =
     \<lparr> SendCounter = 1, RecvCounter = 1,
       SendBasicBlockCounter = 1, RecvBasicBlockCounter = 0,
       SendName = ''MPI_Send'', RecvName = ''MPI_Recv'', BasicDeps = [1],
       Deps = [3, 2, 0, 1], Worklist = [] \<rparr>"

text \<open>
  A module whose only block holds both calls: 0: \<^verbatim>\<open>call @MPI_Send()\<close>,
  1: \<^verbatim>\<open>call @MPI_Recv()\<close>, 2: \<^verbatim>\<open>ret\<close>. The block is the entry of \<^verbatim>\<open>main\<close> and has no
  predecessor.
\<close>

definition entry_module :: Module where
  "entry_module =
     \<lparr> getFunctionList = [0, 1, 2],
       getName = (\<lambda>_. '''')(0 := ''main'', 1 := ''MPI_Send'', 2 := ''MPI_Recv''),
       function_uses = (\<lambda>_. [])(1 := [Instruction 0], 2 := [Instruction 1]),
       getParent = (\<lambda>_. 0),
       predecessors = (\<lambda>_. []),
       getTerminator = (\<lambda>_. 2),
       operands = (\<lambda>_. [])(0 := [Function 1], 1 := [Function 2]),
       uses = (\<lambda>_. []),
       getOpcode = (\<lambda>_. Ret)(0 := Call, 1 := Call) \<rparr>"

text \<open>
  The state in which the pass leaves a new instance after one run on it, in a process
  that has just started.
\<close>

definition entry_result :: MpiDepAnalysis where
  "entry_result =
     \<lparr> SendCounter = 1, RecvCounter = 1,
       SendBasicBlockCounter = 1, RecvBasicBlockCounter = 0,
       SendName = ''MPI_Send'', RecvName = ''MPI_Recv'', BasicDeps = [0],
       Deps = [], Worklist = [] \<rparr>"

text \<open>
  Counters of a process that has run passes before, and the state in which the pass
  leaves an instance made in that process after one run on S2.
\<close>

definition late_statistics :: Statistics where
  "late_statistics =
     \<lparr> SendCounter = 5, RecvCounter = 7,
       SendBasicBlockCounter = 3, RecvBasicBlockCounter = 4 \<rparr>"

definition S2_late_result :: MpiDepAnalysis where
  "S2_late_result =
     \<lparr> SendCounter = 6, RecvCounter = 8,
       SendBasicBlockCounter = 4, RecvBasicBlockCounter = 4,
       SendName = ''MPI_Send'', RecvName = ''MPI_Recv'', BasicDeps = [1],
       Deps = [3, 2, 0, 1], Worklist = [] \<rparr>"

section \<open>The loops in closed form\<close>

lemma Instruction_users_simps [simp]:
  "Instruction_users [] = []"
  "Instruction_users (Instruction U # vs) = U # Instruction_users vs"
  "Instruction_users (BasicBlock b # vs) = Instruction_users vs"
  "Instruction_users (Function f # vs) = Instruction_users vs"
  "Instruction_users (Constant c # vs) = Instruction_users vs"
  by (simp_all add: Instruction_users_def List.map_filter_simps)

lemma Instruction_users_append [simp]:
  "Instruction_users (xs @ ys) = Instruction_users xs @ Instruction_users ys"
  by (simp add: Instruction_users_def List.map_filter_def)

lemma set_Instruction_users [simp]:
  "set (Instruction_users vs) = {U. Instruction U \<in> set vs}"
proof (induction vs)
  case Nil
  show ?case by simp
next
  case (Cons v vs)
  then show ?case by (cases v) auto
qed

lemma push_back_Instructions_eq:
  "push_back_Instructions W vs = W @ Instruction_users vs"
proof (induction vs arbitrary: W)
  case Nil
  show ?case by (simp add: push_back_Instructions_def)
next
  case (Cons v vs)
  have "push_back_Instructions W (v # vs) =
        push_back_Instructions (case dyn_cast_Instruction v of None \<Rightarrow> W | Some U \<Rightarrow> W @ [U]) vs"
    by (simp add: push_back_Instructions_def)
  then show ?case using Cons.IH by (cases v) simp_all
qed

text \<open>One turn of the loop of \<open>reachFixpoint\<close>, with the pushes written as appends.\<close>

lemma reachFixpoint_body_eq:
  "reachFixpoint_body M P =
     P\<lparr>Worklist :=
          butlast (Worklist P) @ Instruction_users (operands M (last (Worklist P)))
          @ (if last (Worklist P) \<notin> set (Deps P) \<and> getOpcode M (last (Worklist P)) = Alloca
             then Instruction_users (uses M (last (Worklist P))) else []),
        Deps := (if last (Worklist P) \<in> set (Deps P) then Deps P
                 else Deps P @ [last (Worklist P)])\<rparr>"
  by (simp add: reachFixpoint_body_def Let_def SmallPtrSet_insert_def push_back_Instructions_eq)

lemma initWorklist_inner:
  "foldl (\<lambda>W Pred. push_back_Instructions W (operands M (getTerminator M Pred))) W Ps
   = W @ concat (map (\<lambda>Pred. Instruction_users (operands M (getTerminator M Pred))) Ps)"
  by (induction Ps arbitrary: W) (simp_all add: push_back_Instructions_eq)

lemma initWorklist_eq:
  "initWorklist M P = P\<lparr>Worklist := Worklist P @ seeds_of M (BasicDeps P)\<rparr>"
proof -
  have "foldl (\<lambda>W BB. foldl (\<lambda>W Pred. push_back_Instructions W (operands M (getTerminator M Pred)))
                    W (predecessors M BB)) W Bs = W @ seeds_of M Bs" for W Bs
    by (induction Bs arbitrary: W) (simp_all add: initWorklist_inner seeds_of_def)
  then show ?thesis by (simp add: initWorklist_def)
qed

section \<open>Reasoning about runs of the loop that return\<close>

text \<open>
  Induction over a run of \<open>reachFixpoint\<close> that returns: the property holds when the
  worklist is empty, and it passes from the state after a turn to the state before it.
\<close>

lemma reachFixpoint_induct [consumes 1, case_names empty turn]:
  assumes run: "reachFixpoint M P = Some P'"
    and empty: "\<And>Q. Worklist Q = [] \<Longrightarrow> Pr Q Q"
    and turn: "\<And>Q Q'. Worklist Q \<noteq> [] \<Longrightarrow> reachFixpoint M Q = Some Q'
                 \<Longrightarrow> reachFixpoint M (reachFixpoint_body M Q) = Some Q'
                 \<Longrightarrow> Pr (reachFixpoint_body M Q) Q' \<Longrightarrow> Pr Q Q'"
  shows "Pr P P'"
proof -
  define G where "G = (\<lambda>x y. fst x = M \<longrightarrow> reachFixpoint M (snd x) = Some y \<and> Pr (snd x) y)"
  have "G (M, P) P'"
  proof (rule reachFixpoint.raw_induct [where Pa = G, OF _ run])
    fix f N Q Q'
    assume IH: "\<And>N Q y. f N Q = Some y \<Longrightarrow> G (N, Q) y"
      and eq: "(if Worklist Q = [] then Some Q else f N (reachFixpoint_body N Q)) = Some Q'"
    show "G (N, Q) Q'"
    proof (cases "Worklist Q = []")
      case True
      with eq have "Q' = Q" by simp
      with True show ?thesis
        by (simp add: G_def reachFixpoint.simps empty)
    next
      case False
      with eq have "f N (reachFixpoint_body N Q) = Some Q'" by simp
      from IH [OF this] have g: "G (N, reachFixpoint_body N Q) Q'" .
      show ?thesis
        unfolding G_def
      proof (intro impI)
        assume "fst (N, Q) = M"
        then have N: "N = M" by simp
        from g N have r: "reachFixpoint M (reachFixpoint_body M Q) = Some Q'"
          and p: "Pr (reachFixpoint_body M Q) Q'"
          by (simp_all add: G_def)
        from False r have r': "reachFixpoint M Q = Some Q'"
          by (subst reachFixpoint.simps) simp
        from turn [OF False r' r p] r'
        show "reachFixpoint M (snd (N, Q)) = Some Q' \<and> Pr (snd (N, Q)) Q'" by simp
      qed
    qed
  qed
  then show ?thesis by (simp add: G_def)
qed

text \<open>A property kept by every turn holds when the loop returns, with an empty worklist.\<close>

lemma reachFixpoint_invariant:
  assumes run: "reachFixpoint M P = Some P'"
    and init: "I P"
    and keep: "\<And>Q. I Q \<Longrightarrow> Worklist Q \<noteq> [] \<Longrightarrow> I (reachFixpoint_body M Q)"
  shows "I P' \<and> Worklist P' = []"
  using run init
proof (induction rule: reachFixpoint_induct)
  case (empty Q)
  then show ?case by simp
next
  case (turn Q Q')
  then show ?case using keep by blast
qed

text \<open>The loop touches nothing but the worklist and \<open>Deps\<close>, and \<open>Deps\<close> only grows.\<close>

lemma reachFixpoint_frame:
  assumes "reachFixpoint M P = Some P'"
  shows "SendName P' = SendName P \<and> RecvName P' = RecvName P \<and> BasicDeps P' = BasicDeps P
       \<and> SendCounter P' = SendCounter P \<and> RecvCounter P' = RecvCounter P
       \<and> SendBasicBlockCounter P' = SendBasicBlockCounter P
       \<and> RecvBasicBlockCounter P' = RecvBasicBlockCounter P
       \<and> set (Deps P) \<subseteq> set (Deps P')"
  using assms
proof (induction rule: reachFixpoint_induct)
  case (empty Q)
  show ?case by simp
next
  case (turn Q Q')
  then show ?case by (auto simp: reachFixpoint_body_eq split: if_splits)
qed

text \<open>
  A run that returns never has on its worklist an instruction that is its own operand:
  popping it would push it again.
\<close>

lemma reachFixpoint_no_self_operand:
  assumes "reachFixpoint M P = Some P'" and "V \<in> set (Worklist P)"
  shows "Instruction V \<notin> set (operands M V)"
  using assms
proof (induction rule: reachFixpoint_induct)
  case (empty Q)
  then show ?case by simp
next
  case (turn Q Q')
  from turn.hyps(1) have W: "Worklist Q = butlast (Worklist Q) @ [last (Worklist Q)]" by simp
  show ?case
  proof
    assume self: "Instruction V \<in> set (operands M V)"
    have "V \<in> set (Worklist (reachFixpoint_body M Q))"
    proof (cases "V = last (Worklist Q)")
      case True
      with self show ?thesis by (simp add: reachFixpoint_body_eq)
    next
      case False
      with turn.prems W have "V \<in> set (butlast (Worklist Q))"
        by (metis Un_iff empty_iff insert_iff list.set(1) list.simps(15) set_append)
      then show ?thesis by (simp add: reachFixpoint_body_eq)
    qed
    with turn.IH self show False by blast
  qed
qed

section \<open>The closure rules\<close>

lemma closure_inv_body:
  assumes inv: "closure_inv M Q" and ne: "Worklist Q \<noteq> []"
  shows "closure_inv M (reachFixpoint_body M Q)"
proof -
  define V where "V = last (Worklist Q)"
  from ne have W: "set (Worklist Q) = insert V (set (butlast (Worklist Q)))"
    unfolding V_def by (metis append_butlast_last_id list.simps(15) set_append Un_insert_right
        sup_bot.right_neutral list.set(1))
  show ?thesis
    using inv unfolding closure_inv_def reachFixpoint_body_eq V_def [symmetric] W
    by (auto split: if_splits)
qed

section \<open>initBasicDeps in closed form\<close>

lemma initBasicDeps_send_eq:
  "initBasicDeps_send M P (Instruction c) =
     P\<lparr>BasicDeps := (if getParent M c \<in> set (BasicDeps P) then BasicDeps P
                      else BasicDeps P @ [getParent M c]),
        SendBasicBlockCounter := (if getParent M c \<in> set (BasicDeps P)
                                  then SendBasicBlockCounter P
                                  else SendBasicBlockCounter P + 1),
        SendCounter := SendCounter P + 1\<rparr>"
  "initBasicDeps_send M P (BasicBlock b) = P"
  "initBasicDeps_send M P (Function f) = P"
  "initBasicDeps_send M P (Constant k) = P"
  by (simp_all add: initBasicDeps_send_def SmallPtrSet_insert_def)

lemma initBasicDeps_recv_eq:
  "initBasicDeps_recv M P (Instruction c) =
     P\<lparr>BasicDeps := (if getParent M c \<in> set (BasicDeps P) then BasicDeps P
                      else BasicDeps P @ [getParent M c]),
        RecvBasicBlockCounter := (if getParent M c \<in> set (BasicDeps P)
                                  then RecvBasicBlockCounter P
                                  else RecvBasicBlockCounter P + 1),
        RecvCounter := RecvCounter P + 1\<rparr>"
  "initBasicDeps_recv M P (BasicBlock b) = P"
  "initBasicDeps_recv M P (Function f) = P"
  "initBasicDeps_recv M P (Constant k) = P"
  by (simp_all add: initBasicDeps_recv_def SmallPtrSet_insert_def)

text \<open>The first loop: what it leaves alone, and what it does to the set and its counters.\<close>

lemma send_loop:
  fixes M us P
  defines "P' \<equiv> foldl (initBasicDeps_send M) P us"
  shows "SendName P' = SendName P \<and> RecvName P' = RecvName P
       \<and> Deps P' = Deps P \<and> Worklist P' = Worklist P
       \<and> RecvCounter P' = RecvCounter P
       \<and> RecvBasicBlockCounter P' = RecvBasicBlockCounter P
       \<and> SendCounter P' = SendCounter P + length (Instruction_users us)
       \<and> set (BasicDeps P') = set (BasicDeps P) \<union> getParent M ` set (Instruction_users us)
       \<and> (distinct (BasicDeps P) \<longrightarrow> distinct (BasicDeps P'))
       \<and> SendBasicBlockCounter P' + length (BasicDeps P)
           = SendBasicBlockCounter P + length (BasicDeps P')"
  unfolding P'_def
proof (induction us arbitrary: P)
  case Nil
  show ?case by simp
next
  case (Cons u us)
  show ?case
  proof (cases u)
    case (Instruction c)
    show ?thesis
      using Cons.IH [of "initBasicDeps_send M P (Instruction c)"]
      unfolding Instruction
      by (auto simp: initBasicDeps_send_eq simp del: set_Instruction_users)
  qed (use Cons.IH [of P] in \<open>simp_all add: initBasicDeps_send_eq del: set_Instruction_users\<close>)
qed

lemma recv_loop:
  fixes M us P
  defines "P' \<equiv> foldl (initBasicDeps_recv M) P us"
  shows "SendName P' = SendName P \<and> RecvName P' = RecvName P
       \<and> Deps P' = Deps P \<and> Worklist P' = Worklist P
       \<and> SendCounter P' = SendCounter P
       \<and> SendBasicBlockCounter P' = SendBasicBlockCounter P
       \<and> RecvCounter P' = RecvCounter P + length (Instruction_users us)
       \<and> set (BasicDeps P') = set (BasicDeps P) \<union> getParent M ` set (Instruction_users us)
       \<and> (distinct (BasicDeps P) \<longrightarrow> distinct (BasicDeps P'))
       \<and> RecvBasicBlockCounter P' + length (BasicDeps P)
           = RecvBasicBlockCounter P + length (BasicDeps P')"
  unfolding P'_def
proof (induction us arbitrary: P)
  case Nil
  show ?case by simp
next
  case (Cons u us)
  show ?case
  proof (cases u)
    case (Instruction c)
    show ?thesis
      using Cons.IH [of "initBasicDeps_recv M P (Instruction c)"]
      unfolding Instruction
      by (auto simp: initBasicDeps_recv_eq simp del: set_Instruction_users)
  qed (use Cons.IH [of P] in \<open>simp_all add: initBasicDeps_recv_eq del: set_Instruction_users\<close>)
qed

text \<open>Both loops, run on the state a constructor leaves.\<close>

lemma initBasicDeps_new:
  fixes M Send Recv sn rn St
  defines "P \<equiv> initBasicDeps M Send Recv (MpiDepAnalysis_named sn rn St)"
  shows "SendName P = sn" and "RecvName P = rn" and "Deps P = []" and "Worklist P = []"
    and "SendCounter P = SendCounter St + length (Instruction_users (function_uses M Send))"
    and "RecvCounter P = RecvCounter St + length (Instruction_users (function_uses M Recv))"
    and "set (BasicDeps P) = call_blocks M Send \<union> call_blocks M Recv"
    and "distinct (BasicDeps P)"
    and "SendBasicBlockCounter P = SendBasicBlockCounter St + card (call_blocks M Send)"
    and "RecvBasicBlockCounter P
           = RecvBasicBlockCounter St + card (call_blocks M Recv - call_blocks M Send)"
proof -
  define P0 where "P0 = MpiDepAnalysis_named sn rn St"
  define P1 where "P1 = foldl (initBasicDeps_send M) P0 (function_uses M Send)"
  have P: "P = foldl (initBasicDeps_recv M) P1 (function_uses M Recv)"
    by (simp add: P_def P1_def P0_def initBasicDeps_def)
  note s = send_loop [of M P0 "function_uses M Send", folded P1_def]
  note r = recv_loop [of M P1 "function_uses M Recv", folded P]
  have P0: "SendName P0 = sn" "RecvName P0 = rn" "BasicDeps P0 = []" "Deps P0 = []"
    "Worklist P0 = []" "SendCounter P0 = SendCounter St" "RecvCounter P0 = RecvCounter St"
    "SendBasicBlockCounter P0 = SendBasicBlockCounter St"
    "RecvBasicBlockCounter P0 = RecvBasicBlockCounter St"
    by (simp_all add: P0_def MpiDepAnalysis_named_def)
  show "SendName P = sn" "RecvName P = rn" "Deps P = []" "Worklist P = []"
    "SendCounter P = SendCounter St + length (Instruction_users (function_uses M Send))"
    "RecvCounter P = RecvCounter St + length (Instruction_users (function_uses M Recv))"
    using s r P0 by simp_all
  have B1: "set (BasicDeps P1) = call_blocks M Send" and d1: "distinct (BasicDeps P1)"
    using s P0 by (simp_all add: call_blocks_def del: set_Instruction_users)
  show B: "set (BasicDeps P) = call_blocks M Send \<union> call_blocks M Recv"
    using r B1 by (simp add: call_blocks_def del: set_Instruction_users)
  show d: "distinct (BasicDeps P)" using r d1 by simp
  have l1: "length (BasicDeps P1) = card (call_blocks M Send)"
    using d1 B1 distinct_card by fastforce
  have "SendBasicBlockCounter P1 = SendBasicBlockCounter St + length (BasicDeps P1)"
    using s P0 by simp
  then show "SendBasicBlockCounter P = SendBasicBlockCounter St + card (call_blocks M Send)"
    using r l1 by simp
  have fin: "finite (call_blocks M Send)" "finite (call_blocks M Recv)"
    by (simp_all add: call_blocks_def del: set_Instruction_users)
  have l: "length (BasicDeps P) = card (call_blocks M Send \<union> call_blocks M Recv)"
    using d B distinct_card by fastforce
  have "card (call_blocks M Send \<union> call_blocks M Recv)
        = card (call_blocks M Send) + card (call_blocks M Recv - call_blocks M Send)"
    using fin by (metis Diff_disjoint Un_Diff_cancel card_Un_disjoint finite_Diff)
  moreover have "RecvBasicBlockCounter P + length (BasicDeps P1)
      = RecvBasicBlockCounter St + length (BasicDeps P)"
    using r s P0 by simp
  ultimately show "RecvBasicBlockCounter P
      = RecvBasicBlockCounter St + card (call_blocks M Recv - call_blocks M Send)"
    using l l1 by simp
qed

lemma runOnModule_Inr:
  assumes "runOnModule P0 M = Some (Inr P)"
  obtains Send Recv where "initSendRecv P0 M = Inr (Send, Recv)"
    and "reachFixpoint M (initWorklist M (initBasicDeps M Send Recv P0)) = Some P"
  using assms by (auto simp: runOnModule_def split: sum.splits)

lemma closure_inv_start:
  "closure_inv M (initWorklist M (initBasicDeps M Send Recv (MpiDepAnalysis_named sn rn St)))"
  by (simp add: closure_inv_def initWorklist_eq initBasicDeps_new)

section \<open>Every member has a reason\<close>

lemma justified_mono: "justified M S D i \<Longrightarrow> D \<subseteq> D' \<Longrightarrow> justified M S D' i"
  unfolding justified_def by blast

lemma justified_turn:
  assumes run: "reachFixpoint M Q = Some Q'" and ne: "Worklist Q \<noteq> []"
    and inv: "\<forall>i \<in> set (Deps Q) \<union> set (Worklist Q). justified M S (set (Deps Q)) i"
  shows "\<forall>i \<in> set (Deps (reachFixpoint_body M Q)) \<union> set (Worklist (reachFixpoint_body M Q)).
           justified M S (set (Deps (reachFixpoint_body M Q))) i"
proof -
  define V where "V = last (Worklist Q)"
  define D' where "D' = insert V (set (Deps Q))"
  from ne have VW: "V \<in> set (Worklist Q)" by (simp add: V_def)
  have D': "set (Deps (reachFixpoint_body M Q)) = D'"
    by (auto simp: reachFixpoint_body_eq D'_def V_def)
  have old: "justified M S D' i" if "i \<in> set (Deps Q) \<union> set (Worklist Q)" for i
    using inv that justified_mono [of M S "set (Deps Q)" i D'] by (auto simp: D'_def)
  have noself: "Instruction V \<notin> set (operands M V)"
    using run VW by (rule reachFixpoint_no_self_operand)
  have ops: "justified M S D' U" if "Instruction U \<in> set (operands M V)" for U
  proof -
    from that noself have "V \<noteq> U" by auto
    with that show ?thesis unfolding justified_def D'_def by blast
  qed
  have us: "justified M S D' U" if "getOpcode M V = Alloca" "Instruction U \<in> set (uses M V)" for U
    using that unfolding justified_def D'_def by blast
  have "justified M S D' i" if "i \<in> D' \<union> set (Worklist (reachFixpoint_body M Q))" for i
  proof -
    from that consider "i \<in> set (Deps Q)" | "i = V" | "i \<in> set (butlast (Worklist Q))"
      | "Instruction i \<in> set (operands M V)"
      | "getOpcode M V = Alloca" "Instruction i \<in> set (uses M V)"
      by (auto simp: reachFixpoint_body_eq D'_def V_def split: if_splits)
    then show ?thesis
    proof cases
      case 3
      then have "i \<in> set (Worklist Q)" by (rule in_set_butlastD)
      then show ?thesis using old by simp
    qed (use old VW ops us in auto)
  qed
  then show ?thesis unfolding D' by blast
qed

lemma justified_run:
  assumes "reachFixpoint M P = Some P'"
    and "\<forall>i \<in> set (Deps P) \<union> set (Worklist P). justified M S (set (Deps P)) i"
  shows "\<forall>i \<in> set (Deps P'). justified M S (set (Deps P')) i"
  using assms
proof (induction rule: reachFixpoint_induct)
  case (empty Q)
  then show ?case by simp
next
  case (turn Q Q')
  from turn.hyps(2) turn.hyps(1) turn.prems
  have "\<forall>i \<in> set (Deps (reachFixpoint_body M Q)) \<union> set (Worklist (reachFixpoint_body M Q)).
           justified M S (set (Deps (reachFixpoint_body M Q))) i"
    by (rule justified_turn)
  then show ?case by (rule turn.IH)
qed

lemma set_seeds_of:
  "set (seeds_of M Bs) =
     {i. \<exists>b \<in> set Bs. \<exists>p \<in> set (predecessors M b).
           Instruction i \<in> set (operands M (getTerminator M p))}"
  by (auto simp: seeds_of_def)

section \<open>The scan of initSendRecv\<close>

text \<open>
  The scan in closed form. A function reaches the \<open>Recv\<close> branch only when its name is
  not the send name. With at most one candidate for each pointer the scan ends with the
  candidates bound; with more it stops at an assertion.
\<close>

lemma initSendRecv_loop_eq:
  fixes sn rn M Fs Send Recv
  defines "ss \<equiv> filter (\<lambda>F. getName M F = sn) Fs"
    and "rs \<equiv> filter (\<lambda>F. getName M F = rn \<and> getName M F \<noteq> sn) Fs"
  shows "(length ss + (if Send = None then 0 else 1) \<le> 1
            \<and> length rs + (if Recv = None then 0 else 1) \<le> 1
          \<longrightarrow> initSendRecv_loop sn rn M Fs Send Recv
                = Inr (case ss of [] \<Rightarrow> Send | F # _ \<Rightarrow> Some F,
                       case rs of [] \<Rightarrow> Recv | F # _ \<Rightarrow> Some F))
       \<and> (1 < length ss + (if Send = None then 0 else 1)
            \<or> 1 < length rs + (if Recv = None then 0 else 1)
          \<longrightarrow> (\<exists>s. initSendRecv_loop sn rn M Fs Send Recv = Inl (SinkAmbiguous s)))"
  unfolding ss_def rs_def
proof (induction Fs arbitrary: Send Recv)
  case Nil
  show ?case by simp
next
  case (Cons F Fs)
  show ?case
  proof (cases "getName M F = sn")
    case sn: True
    show ?thesis
    proof (cases Send)
      case None
      with sn Cons.IH [of "Some F" Recv] show ?thesis
        by (auto split: list.splits)
    next
      case (Some S)
      with sn show ?thesis by auto
    qed
  next
    case nsn: False
    show ?thesis
    proof (cases "getName M F = rn")
      case rn: True
      show ?thesis
      proof (cases Recv)
        case None
        with nsn rn Cons.IH [of Send "Some F"] show ?thesis
          by (auto split: list.splits)
      next
        case (Some R)
        with nsn rn show ?thesis by auto
      qed
    next
      case False
      with nsn Cons.IH [of Send Recv] show ?thesis by auto
    qed
  qed
qed

lemma initSendRecv_cases:
  fixes P M
  defines "ss \<equiv> filter (\<lambda>F. getName M F = SendName P) (getFunctionList M)"
    and "rs \<equiv> filter (\<lambda>F. getName M F = RecvName P \<and> getName M F \<noteq> SendName P)
                 (getFunctionList M)"
  shows "1 < length ss \<or> 1 < length rs \<Longrightarrow> \<exists>s. initSendRecv P M = Inl (SinkAmbiguous s)"
    and "ss = [] \<Longrightarrow> length rs \<le> 1 \<Longrightarrow> initSendRecv P M = Inl (SinkMissing SendSink)"
    and "ss = [S] \<Longrightarrow> rs = [] \<Longrightarrow> initSendRecv P M = Inl (SinkMissing RecvSink)"
    and "ss = [S] \<Longrightarrow> rs = [R] \<Longrightarrow> initSendRecv P M = Inr (S, R)"
  using initSendRecv_loop_eq [of M "SendName P" "getFunctionList M" None "RecvName P" None]
  unfolding ss_def [symmetric] rs_def [symmetric]
  by (auto simp: initSendRecv_def split: list.splits)

lemma length_1_conv: "length xs = Suc 0 \<longleftrightarrow> (\<exists>x. xs = [x])"
  by (cases xs) auto

lemma distinct_singleton_set: "distinct xs \<Longrightarrow> set xs = {b} \<Longrightarrow> xs = [b]"
  by (cases xs) (auto simp: subset_singleton_iff dest: subset_singletonD)

section \<open>A loop that sends\<close>

text \<open>
  On \<open>loop_module\<close> the worklist of a run that starts with the seed \<^verbatim>\<open>%c\<close> (4) is
  \<open>[4]\<close>, then \<open>[2]\<close>, \<open>[1]\<close>, \<open>[2]\<close>, \<open>[1]\<close> and so on for ever: \<^verbatim>\<open>%n\<close> (2) and the phi
  \<^verbatim>\<open>%i\<close> (1) are operands of each other, and operands are pushed at every pop.
\<close>

lemma loop_module_turn:
  "Worklist P \<in> {[4], [2], [1]}
   \<Longrightarrow> Worklist (reachFixpoint_body loop_module P) \<in> {[4], [2], [1]}"
  by (auto simp: reachFixpoint_body_eq loop_module_def)

lemma loop_module_diverges:
  assumes "Worklist P \<in> {[4], [2], [1]}"
  shows "reachFixpoint loop_module P = None"
proof (cases "reachFixpoint loop_module P")
  case None
  then show ?thesis .
next
  case (Some P')
  then have "Worklist P \<notin> {[4], [2], [1]}"
  proof (induction rule: reachFixpoint_induct)
    case (empty Q)
    then show ?case by simp
  next
    case (turn Q Q')
    then show ?case using loop_module_turn [of Q] by blast
  qed
  with assms show ?thesis by simp
qed

section \<open>Running the pass again on the same instance\<close>

lemma initSendRecv_names:
  "SendName Q = SendName P \<Longrightarrow> RecvName Q = RecvName P \<Longrightarrow> initSendRecv Q M = initSendRecv P M"
  by (simp add: initSendRecv_def)

text \<open>When every block is in the set already, a loop of \<open>initBasicDeps\<close> only counts call sites.\<close>

lemma send_loop_known:
  "getParent M ` set (Instruction_users us) \<subseteq> set (BasicDeps P)
   \<Longrightarrow> foldl (initBasicDeps_send M) P us
       = P\<lparr>SendCounter := SendCounter P + length (Instruction_users us)\<rparr>"
proof (induction us arbitrary: P)
  case Nil
  show ?case by simp
next
  case (Cons u us)
  show ?case
  proof (cases u)
    case (Instruction c)
    with Cons.prems have "getParent M c \<in> set (BasicDeps P)"
      and "getParent M ` set (Instruction_users us) \<subseteq> set (BasicDeps P)"
      by (simp_all del: set_Instruction_users)
    then show ?thesis
      using Cons.IH [of "P\<lparr>SendCounter := SendCounter P + 1\<rparr>"]
      by (simp add: Instruction initBasicDeps_send_eq del: set_Instruction_users)
  qed (use Cons in \<open>simp_all add: initBasicDeps_send_eq del: set_Instruction_users\<close>)
qed

lemma recv_loop_known:
  "getParent M ` set (Instruction_users us) \<subseteq> set (BasicDeps P)
   \<Longrightarrow> foldl (initBasicDeps_recv M) P us
       = P\<lparr>RecvCounter := RecvCounter P + length (Instruction_users us)\<rparr>"
proof (induction us arbitrary: P)
  case Nil
  show ?case by simp
next
  case (Cons u us)
  show ?case
  proof (cases u)
    case (Instruction c)
    with Cons.prems have "getParent M c \<in> set (BasicDeps P)"
      and "getParent M ` set (Instruction_users us) \<subseteq> set (BasicDeps P)"
      by (simp_all del: set_Instruction_users)
    then show ?thesis
      using Cons.IH [of "P\<lparr>RecvCounter := RecvCounter P + 1\<rparr>"]
      by (simp add: Instruction initBasicDeps_recv_eq del: set_Instruction_users)
  qed (use Cons in \<open>simp_all add: initBasicDeps_recv_eq del: set_Instruction_users\<close>)
qed

lemma subseq_snoc_cases:
  assumes "subseq xs (ys @ [v])"
  obtains "subseq xs ys" | xs' where "xs = xs' @ [v]" "subseq xs' ys"
proof -
  from assms obtain xs1 xs2 where xs: "xs = xs1 @ xs2" and 1: "subseq xs1 ys" and 2: "subseq xs2 [v]"
    by (rule subseq_appendE)
  from 2 have "xs2 = [] \<or> xs2 = [v]"
    by (cases xs2) (auto split: if_splits)
  with xs 1 that show thesis by auto
qed

text \<open>
  A run that starts with a part of the worklist of a run that returns, and with every
  member that run ends with, returns too, and changes nothing but the worklist.
\<close>

lemma reachFixpoint_again:
  assumes "reachFixpoint M P = Some P'"
    and "subseq (Worklist Q) (Worklist P)"
    and "set (Deps P') \<subseteq> set (Deps Q)"
  shows "reachFixpoint M Q = Some (Q\<lparr>Worklist := []\<rparr>)"
  using assms
proof (induction arbitrary: Q rule: reachFixpoint_induct)
  case (empty R)
  then have "Worklist Q = []" by simp
  then show ?case by (subst reachFixpoint.simps) simp
next
  case (turn R R')
  define V where "V = last (Worklist R)"
  from turn.hyps(1) have WR: "Worklist R = butlast (Worklist R) @ [V]"
    by (simp add: V_def)
  have WR': "Worklist (reachFixpoint_body M R) =
      butlast (Worklist R) @ Instruction_users (operands M V)
      @ (if V \<notin> set (Deps R) \<and> getOpcode M V = Alloca then Instruction_users (uses M V) else [])"
    by (simp add: reachFixpoint_body_eq V_def)
  have "V \<in> set (Deps (reachFixpoint_body M R))"
    by (simp add: reachFixpoint_body_eq V_def)
  with reachFixpoint_frame [OF turn.hyps(3)] turn.prems(2) have VQ: "V \<in> set (Deps Q)"
    by blast
  from turn.prems(1) WR have "subseq (Worklist Q) (butlast (Worklist R) @ [V])" by simp
  then show ?case
  proof (cases rule: subseq_snoc_cases)
    case 1
    then have "subseq (Worklist Q) (Worklist (reachFixpoint_body M R))"
      unfolding WR' by (rule subseq_rev_drop_many)
    then show ?thesis using turn.prems(2) by (rule turn.IH)
  next
    case (2 B)
    then have ne: "Worklist Q \<noteq> []" and lastQ: "last (Worklist Q) = V"
      and butQ: "butlast (Worklist Q) = B"
      by simp_all
    have body: "reachFixpoint_body M Q = Q\<lparr>Worklist := B @ Instruction_users (operands M V)\<rparr>"
      using VQ by (simp add: reachFixpoint_body_eq lastQ butQ)
    have WQ': "Worklist (reachFixpoint_body M Q) = B @ Instruction_users (operands M V)"
      by (simp add: body)
    have "subseq (B @ Instruction_users (operands M V))
        (butlast (Worklist R) @ Instruction_users (operands M V))"
      using 2(2) by (intro list_emb_append_mono) simp_all
    then have "subseq (B @ Instruction_users (operands M V))
        ((butlast (Worklist R) @ Instruction_users (operands M V))
         @ (if V \<notin> set (Deps R) \<and> getOpcode M V = Alloca
            then Instruction_users (uses M V) else []))"
      by (rule subseq_rev_drop_many)
    then have "subseq (Worklist (reachFixpoint_body M Q)) (Worklist (reachFixpoint_body M R))"
      unfolding WR' WQ' by (simp only: append_assoc)
    moreover have "set (Deps R') \<subseteq> set (Deps (reachFixpoint_body M Q))"
      using turn.prems(2) by (simp add: body)
    ultimately have "reachFixpoint M (reachFixpoint_body M Q)
        = Some ((reachFixpoint_body M Q)\<lparr>Worklist := []\<rparr>)"
      by (rule turn.IH)
    then have "reachFixpoint M (reachFixpoint_body M Q) = Some (Q\<lparr>Worklist := []\<rparr>)"
      by (simp add: body)
    with ne show ?thesis by (subst reachFixpoint.simps) simp
  qed
qed

section \<open>Evaluating the scenarios\<close>

lemma S1_run: "runOnModule (MpiDepAnalysis_default process_start) S1_module = Some (Inr S1_result)"
  by code_simp

text \<open>
  Claim C8. On the module of scenario S1 the pass, run on a new instance in a process
  that has just started, returns, and in the state it leaves
  \<open>Deps\<close> contains \<^verbatim>\<open>%c\<close> (3), \<^verbatim>\<open>%v\<close> (2) and \<^verbatim>\<open>%a\<close> (0), the allocas of \<open>Deps\<close> are
  exactly \<^verbatim>\<open>%a\<close>, the send call-site counter is 1 and the send-block counter is 1.
\<close>

theorem S1_scenario:
  "runOnModule (MpiDepAnalysis_default process_start) S1_module = Some (Inr S1_result)
   \<and> 3 \<in> set (Deps S1_result) \<and> 2 \<in> set (Deps S1_result) \<and> 0 \<in> set (Deps S1_result)
   \<and> set (printAllocaDeps S1_module S1_result) = {0}
   \<and> SendCounter S1_result = 1 \<and> SendBasicBlockCounter S1_result = 1"
  by code_simp

section \<open>The closure loop\<close>

text \<open>
  Claim C1. When the pass, run on a new instance (whatever the counters of the process),
  returns with resolved sinks, the final
  \<open>Deps\<close> is closed under both rules: every operand of a member that is an instruction is
  a member, and every user of an alloca member that is an instruction is a member.
\<close>

theorem Deps_closed:
  assumes "runOnModule (MpiDepAnalysis_named sn rn St) M = Some (Inr P)"
  shows "(\<forall>i \<in> set (Deps P). \<forall>U. Instruction U \<in> set (operands M i) \<longrightarrow> U \<in> set (Deps P))
       \<and> (\<forall>a \<in> set (Deps P). getOpcode M a = Alloca
             \<longrightarrow> (\<forall>U. Instruction U \<in> set (uses M a) \<longrightarrow> U \<in> set (Deps P)))"
proof -
  from assms obtain Send Recv
    where run: "reachFixpoint M
        (initWorklist M (initBasicDeps M Send Recv (MpiDepAnalysis_named sn rn St))) = Some P"
    by (rule runOnModule_Inr)
  have "closure_inv M P \<and> Worklist P = []"
    using run closure_inv_start closure_inv_body by (rule reachFixpoint_invariant)
  then show ?thesis by (auto simp: closure_inv_def)
qed

text \<open>
  On scenario S1: the load \<^verbatim>\<open>%v\<close> (2) is a member and has the operand \<^verbatim>\<open>%a\<close> (0), so
  \<^verbatim>\<open>%a\<close> is a member; it is an alloca used by the store (1), so the store is a member.
\<close>

theorem Deps_closed_witness:
  "runOnModule (MpiDepAnalysis_named ''MPI_Send'' ''MPI_Recv'' process_start) S1_module = Some (Inr S1_result)
   \<and> 2 \<in> set (Deps S1_result) \<and> Instruction 0 \<in> set (operands S1_module 2)
   \<and> 0 \<in> set (Deps S1_result)
   \<and> getOpcode S1_module 0 = Alloca \<and> Instruction 1 \<in> set (uses S1_module 0)
   \<and> 1 \<in> set (Deps S1_result)"
proof -
  have run: "runOnModule (MpiDepAnalysis_named ''MPI_Send'' ''MPI_Recv'' process_start) S1_module
               = Some (Inr S1_result)"
    using S1_run by (simp add: MpiDepAnalysis_default_def)
  have m2: "2 \<in> set (Deps S1_result)" by (simp add: S1_result_def)
  have o2: "Instruction 0 \<in> set (operands S1_module 2)" by (simp add: S1_module_def)
  have a0: "getOpcode S1_module 0 = Alloca" by (simp add: S1_module_def)
  have u0: "Instruction 1 \<in> set (uses S1_module 0)" by (simp add: S1_module_def)
  note closed = Deps_closed [OF run]
  from closed m2 o2 have m0: "0 \<in> set (Deps S1_result)" by blast
  from closed m0 a0 u0 have "1 \<in> set (Deps S1_result)" by blast
  with run m2 o2 m0 a0 u0 show ?thesis by blast
qed

text \<open>
  Claim C3. When the pass, run on a new instance (whatever the counters of the process),
  returns, every member \<open>i\<close> of the final
  \<open>Deps\<close> has one of three reasons: \<open>i\<close> is an operand of the terminator of a predecessor
  of a block that holds a call site of a sink, or \<open>i\<close> is an operand of another member, or
  \<open>i\<close> is a user of an alloca member.
\<close>

theorem Deps_justified:
  assumes run: "runOnModule (MpiDepAnalysis_named sn rn St) M = Some (Inr P)"
    and mem: "i \<in> set (Deps P)"
  shows "(\<exists>Send Recv c p. initSendRecv (MpiDepAnalysis_named sn rn St) M = Inr (Send, Recv)
            \<and> (Instruction c \<in> set (function_uses M Send)
                 \<or> Instruction c \<in> set (function_uses M Recv))
            \<and> p \<in> set (predecessors M (getParent M c))
            \<and> Instruction i \<in> set (operands M (getTerminator M p)))
       \<or> (\<exists>d \<in> set (Deps P). d \<noteq> i \<and> Instruction i \<in> set (operands M d))
       \<or> (\<exists>a \<in> set (Deps P). getOpcode M a = Alloca \<and> Instruction i \<in> set (uses M a))"
proof -
  define P0 where "P0 = MpiDepAnalysis_named sn rn St"
  from run obtain Send Recv
    where res: "initSendRecv P0 M = Inr (Send, Recv)"
      and loop: "reachFixpoint M (initWorklist M (initBasicDeps M Send Recv P0)) = Some P"
    unfolding P0_def by (rule runOnModule_Inr)
  define P1 where "P1 = initBasicDeps M Send Recv P0"
  define S where "S = set (seeds_of M (BasicDeps P1))"
  have "\<forall>i \<in> set (Deps (initWorklist M P1)) \<union> set (Worklist (initWorklist M P1)).
          justified M S (set (Deps (initWorklist M P1))) i"
    by (simp add: initWorklist_eq P1_def P0_def initBasicDeps_new justified_def S_def)
  with loop have "\<forall>i \<in> set (Deps P). justified M S (set (Deps P)) i"
    unfolding P1_def by (rule justified_run)
  with mem have j: "justified M S (set (Deps P)) i" by blast
  show ?thesis
  proof (cases "i \<in> S")
    case True
    then obtain b p where b: "b \<in> call_blocks M Send \<union> call_blocks M Recv"
      and p: "p \<in> set (predecessors M b)"
      and op: "Instruction i \<in> set (operands M (getTerminator M p))"
      unfolding S_def set_seeds_of P1_def P0_def initBasicDeps_new by blast
    from b obtain c where "Instruction c \<in> set (function_uses M Send)
        \<or> Instruction c \<in> set (function_uses M Recv)" and "b = getParent M c"
      by (auto simp: call_blocks_def)
    with p op res show ?thesis unfolding P0_def by blast
  next
    case False
    with j show ?thesis unfolding justified_def by blast
  qed
qed

text \<open>On scenario S1, for the load \<^verbatim>\<open>%v\<close> (2), an operand of the member \<^verbatim>\<open>%c\<close>.\<close>

theorem Deps_justified_witness:
  "runOnModule (MpiDepAnalysis_named ''MPI_Send'' ''MPI_Recv'' process_start) S1_module = Some (Inr S1_result)
   \<and> 2 \<in> set (Deps S1_result)
   \<and> ((\<exists>Send Recv c p.
          initSendRecv (MpiDepAnalysis_named ''MPI_Send'' ''MPI_Recv'' process_start) S1_module = Inr (Send, Recv)
            \<and> (Instruction c \<in> set (function_uses S1_module Send)
                 \<or> Instruction c \<in> set (function_uses S1_module Recv))
            \<and> p \<in> set (predecessors S1_module (getParent S1_module c))
            \<and> Instruction 2 \<in> set (operands S1_module (getTerminator S1_module p)))
       \<or> (\<exists>d \<in> set (Deps S1_result). d \<noteq> 2 \<and> Instruction 2 \<in> set (operands S1_module d))
       \<or> (\<exists>a \<in> set (Deps S1_result). getOpcode S1_module a = Alloca
              \<and> Instruction 2 \<in> set (uses S1_module a)))"
proof -
  have run: "runOnModule (MpiDepAnalysis_named ''MPI_Send'' ''MPI_Recv'' process_start) S1_module
               = Some (Inr S1_result)"
    using S1_run by (simp add: MpiDepAnalysis_default_def)
  have mem: "2 \<in> set (Deps S1_result)" by (simp add: S1_result_def)
  from Deps_justified [OF run mem] run mem show ?thesis by blast
qed

section \<open>Sink resolution\<close>

text \<open>
  Claim C6, as stated, fails when both configured names are the same string: in a module
  with exactly one function of that name each name matches one function, and resolution
  fails at \<^verbatim>\<open>assert(Recv != nullptr)\<close> instead of returning that function twice.
\<close>

theorem initSendRecv_same_name_counterexample:
  "count_named (decls_module [''MPI_Send'']) ''MPI_Send'' = 1
   \<and> initSendRecv (MpiDepAnalysis_named ''MPI_Send'' ''MPI_Send'' process_start) (decls_module [''MPI_Send''])
       = Inl (SinkMissing RecvSink)"
  by code_simp

text \<open>
  Claim C6, amended. When the two configured names are different strings: resolution
  fails with \<open>SinkAmbiguous\<close> when either name is carried by more than one function;
  otherwise it fails with \<open>SinkMissing\<close> when either name is carried by none (of the send
  sink when the send name is carried by none); otherwise it returns, for each name, the
  one function that carries it. A name matches by equality of strings. When resolution
  fails the pass returns the failure and no state.
\<close>

theorem initSendRecv_distinct_names:
  assumes ne: "SendName P \<noteq> RecvName P"
  shows "(1 < count_named M (SendName P) \<or> 1 < count_named M (RecvName P)
            \<longrightarrow> (\<exists>s. initSendRecv P M = Inl (SinkAmbiguous s)))
       \<and> (count_named M (SendName P) \<le> 1 \<and> count_named M (RecvName P) \<le> 1
            \<and> (count_named M (SendName P) = 0 \<or> count_named M (RecvName P) = 0)
            \<longrightarrow> initSendRecv P M
                = Inl (SinkMissing (if count_named M (SendName P) = 0 then SendSink else RecvSink)))
       \<and> (count_named M (SendName P) = 1 \<and> count_named M (RecvName P) = 1
            \<longrightarrow> (\<exists>S R. initSendRecv P M = Inr (S, R)
                   \<and> filter (\<lambda>F. getName M F = SendName P) (getFunctionList M) = [S]
                   \<and> filter (\<lambda>F. getName M F = RecvName P) (getFunctionList M) = [R]))
       \<and> (\<forall>e. initSendRecv P M = Inl e \<longrightarrow> runOnModule P M = Some (Inl e))"
proof -
  define ss where "ss = filter (\<lambda>F. getName M F = SendName P) (getFunctionList M)"
  define rs where "rs = filter (\<lambda>F. getName M F = RecvName P) (getFunctionList M)"
  have "(\<lambda>F. getName M F = RecvName P \<and> getName M F \<noteq> SendName P)
        = (\<lambda>F. getName M F = RecvName P)"
    using ne by auto
  then have rs: "rs = filter (\<lambda>F. getName M F = RecvName P \<and> getName M F \<noteq> SendName P)
                        (getFunctionList M)"
    by (simp add: rs_def)
  note c = initSendRecv_cases [of M P, folded ss_def, folded rs]
  have cs: "count_named M (SendName P) = length ss" and cr: "count_named M (RecvName P) = length rs"
    by (simp_all add: count_named_def ss_def rs_def)
  have amb: "\<exists>s. initSendRecv P M = Inl (SinkAmbiguous s)" if "1 < length ss \<or> 1 < length rs"
    using c(1) that by blast
  have mis: "initSendRecv P M = Inl (SinkMissing (if length ss = 0 then SendSink else RecvSink))"
    if "length ss \<le> 1" "length rs \<le> 1" "length ss = 0 \<or> length rs = 0"
  proof (cases "ss = []")
    case True
    with c(2) that show ?thesis by simp
  next
    case False
    with that obtain S where "ss = [S]" "rs = []"
      by (cases ss) auto
    with c(3) show ?thesis by simp
  qed
  have ok: "\<exists>S R. initSendRecv P M = Inr (S, R) \<and> ss = [S] \<and> rs = [R]"
    if "length ss = 1" "length rs = 1"
  proof -
    from that obtain S R where "ss = [S]" "rs = [R]"
      by (auto simp: length_1_conv)
    with c(4) show ?thesis by blast
  qed
  have fail: "runOnModule P M = Some (Inl e)" if "initSendRecv P M = Inl e" for e
    using that by (simp add: runOnModule_def)
  show ?thesis
    unfolding cs cr using amb mis ok fail unfolding ss_def rs_def by blast
qed

text \<open>
  With the default names: S1 declares each sink once; a module of two functions named
  \<^verbatim>\<open>MPI_Send\<close> is ambiguous; a module without functions misses the send sink.
\<close>

theorem initSendRecv_distinct_names_witness:
  "SendName (MpiDepAnalysis_default process_start) \<noteq> RecvName (MpiDepAnalysis_default process_start)
   \<and> count_named S1_module (SendName (MpiDepAnalysis_default process_start)) = 1
   \<and> count_named S1_module (RecvName (MpiDepAnalysis_default process_start)) = 1
   \<and> initSendRecv (MpiDepAnalysis_default process_start) S1_module = Inr (1, 2)
   \<and> 1 < count_named (decls_module [''MPI_Send'', ''MPI_Send'']) (SendName (MpiDepAnalysis_default process_start))
   \<and> (\<exists>s. initSendRecv (MpiDepAnalysis_default process_start) (decls_module [''MPI_Send'', ''MPI_Send''])
            = Inl (SinkAmbiguous s))
   \<and> count_named (decls_module []) (SendName (MpiDepAnalysis_default process_start)) = 0
   \<and> count_named (decls_module []) (RecvName (MpiDepAnalysis_default process_start)) = 0
   \<and> initSendRecv (MpiDepAnalysis_default process_start) (decls_module []) = Inl (SinkMissing SendSink)
   \<and> runOnModule (MpiDepAnalysis_default process_start) (decls_module []) = Some (Inl (SinkMissing SendSink))"
proof -
  have ne: "SendName (MpiDepAnalysis_default process_start) \<noteq> RecvName (MpiDepAnalysis_default process_start)"
    by (simp add: MpiDepAnalysis_default_def MpiDepAnalysis_named_def)
  have c1: "count_named S1_module (SendName (MpiDepAnalysis_default process_start)) = 1"
    "count_named S1_module (RecvName (MpiDepAnalysis_default process_start)) = 1"
    by code_simp+
  have f1: "filter (\<lambda>F. getName S1_module F = SendName (MpiDepAnalysis_default process_start))
              (getFunctionList S1_module) = [1]"
    "filter (\<lambda>F. getName S1_module F = RecvName (MpiDepAnalysis_default process_start))
              (getFunctionList S1_module) = [2]"
    by code_simp+
  have c2: "1 < count_named (decls_module [''MPI_Send'', ''MPI_Send''])
                  (SendName (MpiDepAnalysis_default process_start))"
    by code_simp
  have c3: "count_named (decls_module []) (SendName (MpiDepAnalysis_default process_start)) = 0"
    "count_named (decls_module []) (RecvName (MpiDepAnalysis_default process_start)) = 0"
    by code_simp+
  note t1 = initSendRecv_distinct_names [OF ne, of S1_module]
  note t2 = initSendRecv_distinct_names [OF ne, of "decls_module [''MPI_Send'', ''MPI_Send'']"]
  note t3 = initSendRecv_distinct_names [OF ne, of "decls_module []"]
  from t1 c1 f1 have r1: "initSendRecv (MpiDepAnalysis_default process_start) S1_module = Inr (1, 2)"
    by auto
  from t2 c2 have r2: "\<exists>s. initSendRecv (MpiDepAnalysis_default process_start)
      (decls_module [''MPI_Send'', ''MPI_Send'']) = Inl (SinkAmbiguous s)"
    by blast
  from t3 c3 have r3: "initSendRecv (MpiDepAnalysis_default process_start) (decls_module [])
      = Inl (SinkMissing SendSink)"
    by simp
  with t3 have r4: "runOnModule (MpiDepAnalysis_default process_start) (decls_module [])
      = Some (Inl (SinkMissing SendSink))"
    by blast
  from ne c1 r1 c2 r2 c3 r3 r4 show ?thesis by blast
qed

text \<open>
  Claim C10. When the send name and the receive name are the same string, the scan never
  binds \<open>Recv\<close>: a function of that name takes the first branch. So resolution never
  succeeds, and in a module that has one function of the configured receive name it
  fails at \<^verbatim>\<open>assert(Recv != nullptr)\<close>, as for a missing receive sink. (A module without
  such a function fails at \<^verbatim>\<open>assert(Send != nullptr)\<close> before, and one with several at
  \<^verbatim>\<open>assert(Send == nullptr)\<close>.)
\<close>

theorem initSendRecv_same_name:
  assumes same: "SendName P = RecvName P"
  shows "(\<forall>S R. initSendRecv_loop (SendName P) (RecvName P) M (getFunctionList M) None None
                  = Inr (S, R) \<longrightarrow> R = None)
       \<and> (\<exists>e. initSendRecv P M = Inl e)
       \<and> (count_named M (RecvName P) = 1 \<longrightarrow> initSendRecv P M = Inl (SinkMissing RecvSink))
       \<and> (count_named M (RecvName P) = 0 \<longrightarrow> initSendRecv P M = Inl (SinkMissing SendSink))
       \<and> (1 < count_named M (RecvName P) \<longrightarrow> initSendRecv P M = Inl (SinkAmbiguous SendSink))"
proof -
  define ss where "ss = filter (\<lambda>F. getName M F = SendName P) (getFunctionList M)"
  have rs: "[] = filter (\<lambda>F. getName M F = RecvName P \<and> getName M F \<noteq> SendName P)
                   (getFunctionList M)"
    using same by simp
  have cr: "count_named M (RecvName P) = length ss"
    using same by (simp add: count_named_def ss_def)
  note l = initSendRecv_loop_eq [of M "SendName P" "getFunctionList M" None "RecvName P" None,
      folded ss_def, folded rs]
  have bind: "R = None"
    if "initSendRecv_loop (SendName P) (RecvName P) M (getFunctionList M) None None = Inr (S, R)"
    for S R
    using l that by (cases "length ss \<le> 1") auto
  have amb: "initSendRecv_loop (SendName P) (RecvName P) M (getFunctionList M) None None
               = Inl (SinkAmbiguous SendSink)" if "1 < length ss"
  proof -
    from that obtain F Fs where Fs: "getFunctionList M = F # Fs"
      by (cases "getFunctionList M") (auto simp: ss_def)
    have "\<And>Send Recv. (Send \<noteq> None \<and> filter (\<lambda>F. getName M F = SendName P) Gs \<noteq> [])
            \<or> 1 < length (filter (\<lambda>F. getName M F = SendName P) Gs)
          \<Longrightarrow> initSendRecv_loop (SendName P) (RecvName P) M Gs Send Recv
              = Inl (SinkAmbiguous SendSink)" for Gs
    proof (induction Gs)
      case Nil
      then show ?case by simp
    next
      case (Cons G Gs)
      show ?case
      proof (cases "getName M G = SendName P")
        case True
        with Cons.prems Cons.IH [of "Some G" Recv] show ?thesis
          by (cases "filter (\<lambda>F. getName M F = SendName P) Gs") auto
      next
        case False
        with Cons.prems Cons.IH [of Send Recv] same show ?thesis by auto
      qed
    qed
    from this [of None "getFunctionList M" None] that show ?thesis by (simp add: ss_def)
  qed
  have one: "initSendRecv P M = Inl (SinkMissing RecvSink)" if "length ss = 1"
  proof -
    from that obtain S where "ss = [S]" by (auto simp: length_1_conv)
    with l show ?thesis by (simp add: initSendRecv_def)
  qed
  have none: "initSendRecv P M = Inl (SinkMissing SendSink)" if "length ss = 0"
    using l that by (simp add: initSendRecv_def)
  have many: "initSendRecv P M = Inl (SinkAmbiguous SendSink)" if "1 < length ss"
    using amb [OF that] by (simp add: initSendRecv_def)
  have "\<exists>e. initSendRecv P M = Inl e"
  proof -
    consider "length ss = 0" | "length ss = 1" | "1 < length ss" by linarith
    then show ?thesis using one none many by cases blast+
  qed
  then show ?thesis unfolding cr using bind one none many by blast
qed

text \<open>Both names \<^verbatim>\<open>MPI_Send\<close>, in a module that declares \<^verbatim>\<open>MPI_Send\<close> and \<^verbatim>\<open>main\<close>.\<close>

theorem initSendRecv_same_name_witness:
  "SendName (MpiDepAnalysis_named ''MPI_Send'' ''MPI_Send'' process_start)
     = RecvName (MpiDepAnalysis_named ''MPI_Send'' ''MPI_Send'' process_start)
   \<and> count_named (decls_module [''main'', ''MPI_Send''])
        (RecvName (MpiDepAnalysis_named ''MPI_Send'' ''MPI_Send'' process_start)) = 1
   \<and> initSendRecv (MpiDepAnalysis_named ''MPI_Send'' ''MPI_Send'' process_start)
        (decls_module [''main'', ''MPI_Send'']) = Inl (SinkMissing RecvSink)"
proof -
  have same: "SendName (MpiDepAnalysis_named ''MPI_Send'' ''MPI_Send'' process_start)
     = RecvName (MpiDepAnalysis_named ''MPI_Send'' ''MPI_Send'' process_start)"
    by (simp add: MpiDepAnalysis_named_def)
  have c: "count_named (decls_module [''main'', ''MPI_Send''])
        (RecvName (MpiDepAnalysis_named ''MPI_Send'' ''MPI_Send'' process_start)) = 1"
    by code_simp
  from initSendRecv_same_name [OF same, of "decls_module [''main'', ''MPI_Send'']"] c same
  show ?thesis by blast
qed

section \<open>Sink blocks and counters\<close>

text \<open>
  Claim C4 holds for the two call-site counters and for the send-block counter
  (\<open>initBasicDeps_new\<close>), and fails for the receive-block counter: on scenario S2 one
  block holds a call of \<^verbatim>\<open>MPI_Recv\<close> (function 2), and the counter that the source
  describes as \<^verbatim>\<open>"Number of basic blocks that contain a receive"\<close> is 0 after the pass.
\<close>

theorem S2_RecvBasicBlockCounter:
  "initSendRecv (MpiDepAnalysis_default process_start) S2_module = Inr (1, 2)
   \<and> runOnModule (MpiDepAnalysis_default process_start) S2_module = Some (Inr S2_result)
   \<and> card (call_blocks S2_module 2) = 1
   \<and> RecvBasicBlockCounter S2_result = 0"
  by code_simp

text \<open>
  Claim C5. When the call sites of \<open>Send\<close> are one instruction \<open>s\<close>, the call sites of \<open>Recv\<close>
  are one instruction \<open>r\<close>, and both lie in one block, then \<open>initBasicDeps\<close>, run on a new
  instance in a process that has just started, leaves that block as the only element of \<open>BasicDeps\<close>, both call-site counters
  at 1, the send-block counter at 1 and the receive-block counter at 0.
\<close>

theorem both_sinks_in_one_block:
  assumes s: "Instruction_users (function_uses M Send) = [s]"
    and r: "Instruction_users (function_uses M Recv) = [r]"
    and b: "getParent M s = getParent M r"
  shows "BasicDeps (initBasicDeps M Send Recv (MpiDepAnalysis_named sn rn process_start)) = [getParent M s]
       \<and> SendCounter (initBasicDeps M Send Recv (MpiDepAnalysis_named sn rn process_start)) = 1
       \<and> RecvCounter (initBasicDeps M Send Recv (MpiDepAnalysis_named sn rn process_start)) = 1
       \<and> SendBasicBlockCounter (initBasicDeps M Send Recv (MpiDepAnalysis_named sn rn process_start)) = 1
       \<and> RecvBasicBlockCounter (initBasicDeps M Send Recv (MpiDepAnalysis_named sn rn process_start)) = 0"
proof -
  have cs: "call_blocks M Send = {getParent M s}" and cr: "call_blocks M Recv = {getParent M s}"
    using s r b by (simp_all add: call_blocks_def del: set_Instruction_users)
  note n = initBasicDeps_new [of M Send Recv sn rn process_start]
  from n(7) n(8) have "BasicDeps (initBasicDeps M Send Recv (MpiDepAnalysis_named sn rn process_start))
      = [getParent M s]"
    by (intro distinct_singleton_set) (simp_all add: cs cr)
  then show ?thesis using n(5,6,9,10) by (simp add: s r cs cr process_start_def)
qed

text \<open>On scenario S2 the two calls are the instructions 5 and 8 of block 1.\<close>

theorem both_sinks_in_one_block_witness:
  "Instruction_users (function_uses S2_module 1) = [5]
   \<and> Instruction_users (function_uses S2_module 2) = [8]
   \<and> getParent S2_module 5 = getParent S2_module 8
   \<and> BasicDeps (initBasicDeps S2_module 1 2 (MpiDepAnalysis_named ''MPI_Send'' ''MPI_Recv'' process_start)) = [1]
   \<and> SendCounter (initBasicDeps S2_module 1 2 (MpiDepAnalysis_named ''MPI_Send'' ''MPI_Recv'' process_start)) = 1
   \<and> RecvCounter (initBasicDeps S2_module 1 2 (MpiDepAnalysis_named ''MPI_Send'' ''MPI_Recv'' process_start)) = 1
   \<and> SendBasicBlockCounter
        (initBasicDeps S2_module 1 2 (MpiDepAnalysis_named ''MPI_Send'' ''MPI_Recv'' process_start)) = 1
   \<and> RecvBasicBlockCounter
        (initBasicDeps S2_module 1 2 (MpiDepAnalysis_named ''MPI_Send'' ''MPI_Recv'' process_start)) = 0"
proof -
  have s: "Instruction_users (function_uses S2_module 1) = [5]"
    and r: "Instruction_users (function_uses S2_module 2) = [8]"
    and b: "getParent S2_module 5 = getParent S2_module 8"
    and p: "getParent S2_module 5 = 1"
    by (simp_all add: S2_module_def S1_module_def)
  from both_sinks_in_one_block [OF s r b, of "''MPI_Send''" "''MPI_Recv''"] s r b p
  show ?thesis by simp
qed

text \<open>
  When no block that holds a call site of a sink has a predecessor, \<open>initWorklist\<close>
  pushes nothing and the pass returns at once, with the state \<open>initBasicDeps\<close> left and an
  empty \<open>Deps\<close>.
\<close>

lemma no_predecessors_run:
  assumes res: "initSendRecv (MpiDepAnalysis_named sn rn St) M = Inr (Send, Recv)"
    and nopred: "\<forall>b \<in> call_blocks M Send \<union> call_blocks M Recv. predecessors M b = []"
  shows "Worklist (initWorklist M (initBasicDeps M Send Recv (MpiDepAnalysis_named sn rn St))) = []"
    and "runOnModule (MpiDepAnalysis_named sn rn St) M
           = Some (Inr (initBasicDeps M Send Recv (MpiDepAnalysis_named sn rn St)))"
    and "Deps (initBasicDeps M Send Recv (MpiDepAnalysis_named sn rn St)) = []"
proof -
  define P1 where "P1 = initBasicDeps M Send Recv (MpiDepAnalysis_named sn rn St)"
  note n = initBasicDeps_new [of M Send Recv sn rn St, folded P1_def]
  from nopred n(7) have "seeds_of M (BasicDeps P1) = []"
    by (simp add: seeds_of_def)
  with n(4) have iw: "initWorklist M P1 = P1"
    by (simp add: initWorklist_eq)
  have "reachFixpoint M P1 = Some P1"
    using n(4) by (subst reachFixpoint.simps) simp
  with res iw show "runOnModule (MpiDepAnalysis_named sn rn St) M = Some (Inr P1)"
    by (simp add: runOnModule_def P1_def)
  from iw n(4) show "Worklist (initWorklist M P1) = []" by simp
  from n(3) show "Deps P1 = []" .
qed

text \<open>
  Claim C9 holds for the worklist and for \<open>Deps\<close> (\<open>no_predecessors_run\<close>), and fails for
  the receive-block counter, by the defect met at claim C4: on \<open>entry_module\<close> the one
  block that holds the calls has no predecessor, the worklist gets no seed and \<open>Deps\<close> ends
  empty, the two call-site counters and the send-block counter are 1, but the
  receive-block counter is 0 although one block holds a call of \<^verbatim>\<open>MPI_Recv\<close> (function 2).
\<close>

theorem entry_module_RecvBasicBlockCounter:
  "initSendRecv (MpiDepAnalysis_default process_start) entry_module = Inr (1, 2)
   \<and> call_blocks entry_module 1 = {0} \<and> call_blocks entry_module 2 = {0}
   \<and> predecessors entry_module 0 = []
   \<and> Worklist (initWorklist entry_module
        (initBasicDeps entry_module 1 2 (MpiDepAnalysis_default process_start))) = []
   \<and> runOnModule (MpiDepAnalysis_default process_start) entry_module = Some (Inr entry_result)
   \<and> Deps entry_result = []
   \<and> SendCounter entry_result = 1 \<and> RecvCounter entry_result = 1
   \<and> SendBasicBlockCounter entry_result = 1
   \<and> card (call_blocks entry_module 2) = 1
   \<and> RecvBasicBlockCounter entry_result = 0"
  by code_simp

section \<open>Termination\<close>

text \<open>
  Claim C2 fails on the code: on \<open>loop_module\<close>, whose block \<^verbatim>\<open>loop\<close> calls the send sink
  and branches on a value computed from a phi, the sinks are resolved, \<open>initWorklist\<close>
  seeds the worklist with \<^verbatim>\<open>%c\<close> (4), and the pass does not return.
\<close>

theorem loop_module_no_return:
  "initSendRecv (MpiDepAnalysis_default process_start) loop_module = Inr (1, 2)
   \<and> Worklist (initWorklist loop_module (initBasicDeps loop_module 1 2 (MpiDepAnalysis_default process_start))) = [4]
   \<and> runOnModule (MpiDepAnalysis_default process_start) loop_module = None"
proof -
  have res: "initSendRecv (MpiDepAnalysis_default process_start) loop_module = Inr (1, 2)"
    by code_simp
  have seed: "Worklist (initWorklist loop_module
      (initBasicDeps loop_module 1 2 (MpiDepAnalysis_default process_start))) = [4]"
    by code_simp
  then have "reachFixpoint loop_module
      (initWorklist loop_module (initBasicDeps loop_module 1 2 (MpiDepAnalysis_default process_start))) = None"
    by (intro loop_module_diverges) simp
  with res seed show ?thesis by (simp add: runOnModule_def)
qed

section \<open>A second run\<close>

text \<open>
  Claim C7, as stated, fails: the state of the pass is made by the constructor and never
  reset by \<open>runOnModule\<close>, and the counters are statistics of the process. On scenario S1
  the send call-site counter is 1 after the first run and 2 after the second.
\<close>

theorem S1_second_run_counterexample:
  "runOnModule (MpiDepAnalysis_default process_start) S1_module = Some (Inr S1_result)
   \<and> SendCounter S1_result = 1
   \<and> runOnModule S1_result S1_module = Some (Inr (S1_result\<lparr>SendCounter := 2\<rparr>))"
  by code_simp

text \<open>
  Claim C7, amended. Take a new instance, made in a process whose counters stand at
  \<open>St\<close>, and a module on which its run returns, with all counters staying below \<open>2 ^ 32\<close>.
  The first run adds the numbers of call sites of the two sinks to the two call-site
  counters. A second run of the same instance on the same module returns too; it leaves
  the same \<open>Deps\<close>, the same \<open>BasicDeps\<close>, an empty worklist and the same two block counters,
  and it adds the numbers of call sites to the two call-site counters once more.
\<close>

theorem second_run:
  assumes res: "initSendRecv (MpiDepAnalysis_named sn rn St) M = Inr (Send, Recv)"
    and run: "runOnModule (MpiDepAnalysis_named sn rn St) M = Some (Inr P)"
    and below:
      "SendCounter St + 2 * length (Instruction_users (function_uses M Send)) < 2 ^ 32"
      "RecvCounter St + 2 * length (Instruction_users (function_uses M Recv)) < 2 ^ 32"
      "SendBasicBlockCounter St + length (Instruction_users (function_uses M Send)) < 2 ^ 32"
      "RecvBasicBlockCounter St + length (Instruction_users (function_uses M Recv)) < 2 ^ 32"
  shows "SendCounter P = SendCounter St + length (Instruction_users (function_uses M Send))
       \<and> RecvCounter P = RecvCounter St + length (Instruction_users (function_uses M Recv))
       \<and> runOnModule P M
           = Some (Inr (P\<lparr>SendCounter :=
                              SendCounter P + length (Instruction_users (function_uses M Send)),
                            RecvCounter :=
                              RecvCounter P + length (Instruction_users (function_uses M Recv))\<rparr>))"
proof -
  define P0 where "P0 = MpiDepAnalysis_named sn rn St"
  from run res have loop: "reachFixpoint M (initWorklist M (initBasicDeps M Send Recv P0)) = Some P"
    unfolding P0_def by (auto simp: runOnModule_def)
  define P1 where "P1 = initBasicDeps M Send Recv P0"
  note n = initBasicDeps_new [of M Send Recv sn rn St, folded P0_def, folded P1_def]
  have W: "Worklist P = []"
    using reachFixpoint_invariant [OF loop, of "\<lambda>_. True"] by simp
  note f = reachFixpoint_frame [OF loop, folded P1_def]
  have f1: "SendName P = sn" "RecvName P = rn" "BasicDeps P = BasicDeps P1"
    "SendCounter P = SendCounter St + length (Instruction_users (function_uses M Send))"
    "RecvCounter P = RecvCounter St + length (Instruction_users (function_uses M Recv))"
    using f n by (simp_all add: initWorklist_eq)
  have res2: "initSendRecv P M = Inr (Send, Recv)"
    using res f1 initSendRecv_names [of P P0 M] by (simp add: P0_def MpiDepAnalysis_named_def)
  define P2 where "P2 = P\<lparr>SendCounter :=
      SendCounter P + length (Instruction_users (function_uses M Send)),
    RecvCounter := RecvCounter P + length (Instruction_users (function_uses M Recv))\<rparr>"
  have blocks: "getParent M ` set (Instruction_users (function_uses M Send)) \<subseteq> set (BasicDeps P)"
    "getParent M ` set (Instruction_users (function_uses M Recv)) \<subseteq> set (BasicDeps P)"
    using n(7) f1(3) by (auto simp: call_blocks_def simp del: set_Instruction_users)
  have "initBasicDeps M Send Recv P = P2"
    using blocks
    by (simp add: initBasicDeps_def send_loop_known recv_loop_known P2_def del: set_Instruction_users)
  moreover have "reachFixpoint M (initWorklist M P2) = Some P2"
  proof -
    have "subseq (Worklist (initWorklist M P2)) (Worklist (initWorklist M P1))"
      by (simp add: initWorklist_eq P2_def W n f1)
    moreover have "set (Deps P) \<subseteq> set (Deps (initWorklist M P2))"
      by (simp add: initWorklist_eq P2_def)
    ultimately have "reachFixpoint M (initWorklist M P2)
        = Some ((initWorklist M P2)\<lparr>Worklist := []\<rparr>)"
      using loop unfolding P1_def [symmetric] by (intro reachFixpoint_again)
    then show ?thesis by (simp add: initWorklist_eq P2_def W)
  qed
  ultimately have "runOnModule P M = Some (Inr P2)"
    using res2 by (simp add: runOnModule_def)
  with f1(4,5) show ?thesis by (simp add: P2_def)
qed

text \<open>
  On scenario S2, in a process whose counters stand at 5, 7, 3 and 4: the first run
  leaves the call-site counters at 6 and 8, the second at 7 and 9.
\<close>

theorem second_run_witness:
  "initSendRecv (MpiDepAnalysis_named ''MPI_Send'' ''MPI_Recv'' late_statistics) S2_module
     = Inr (1, 2)
   \<and> runOnModule (MpiDepAnalysis_named ''MPI_Send'' ''MPI_Recv'' late_statistics) S2_module
       = Some (Inr S2_late_result)
   \<and> SendCounter late_statistics + 2 * length (Instruction_users (function_uses S2_module 1))
       < 2 ^ 32
   \<and> RecvCounter late_statistics + 2 * length (Instruction_users (function_uses S2_module 2))
       < 2 ^ 32
   \<and> SendBasicBlockCounter late_statistics
       + length (Instruction_users (function_uses S2_module 1)) < 2 ^ 32
   \<and> RecvBasicBlockCounter late_statistics
       + length (Instruction_users (function_uses S2_module 2)) < 2 ^ 32
   \<and> SendCounter S2_late_result = 6 \<and> RecvCounter S2_late_result = 8
   \<and> runOnModule S2_late_result S2_module
       = Some (Inr (S2_late_result\<lparr>SendCounter := 7, RecvCounter := 9\<rparr>))"
proof -
  have res: "initSendRecv (MpiDepAnalysis_named ''MPI_Send'' ''MPI_Recv'' late_statistics)
      S2_module = Inr (1, 2)"
    by code_simp
  have run: "runOnModule (MpiDepAnalysis_named ''MPI_Send'' ''MPI_Recv'' late_statistics)
      S2_module = Some (Inr S2_late_result)"
    by code_simp
  have us: "Instruction_users (function_uses S2_module 1) = [5]"
    "Instruction_users (function_uses S2_module 2) = [8]"
    by (simp_all add: S2_module_def S1_module_def)
  have st: "SendCounter late_statistics = 5" "RecvCounter late_statistics = 7"
    "SendBasicBlockCounter late_statistics = 3" "RecvBasicBlockCounter late_statistics = 4"
    by (simp_all add: late_statistics_def)
  have below:
    "SendCounter late_statistics + 2 * length (Instruction_users (function_uses S2_module 1))
       < 2 ^ 32"
    "RecvCounter late_statistics + 2 * length (Instruction_users (function_uses S2_module 2))
       < 2 ^ 32"
    "SendBasicBlockCounter late_statistics
       + length (Instruction_users (function_uses S2_module 1)) < 2 ^ 32"
    "RecvBasicBlockCounter late_statistics
       + length (Instruction_users (function_uses S2_module 2)) < 2 ^ 32"
    using us st by simp_all
  from second_run [OF res run below] res run below us st show ?thesis
    by simp
qed

end
